theory Spec2Isabelle
  imports Main "HOL-Library.AList"
begin

section \<open>Python strings and lists\<close>

text \<open>
  A Python \<open>str\<close> is modelled as a \<open>string\<close>; a \<open>char\<close> stands for one code point
  below 256, so that \<open>length\<close> counts what Python's \<open>len\<close> counts on such text.
  The functions of this section are the library operations the server calls.
\<close>

abbreviation NL :: char where
  "NL \<equiv> CHR 0x0A"

abbreviation TAB :: char where
  "TAB \<equiv> CHR 0x09"

text \<open>\<open>s.split(sep)\<close> for a separator of one character: never an empty list.\<close>

fun py_split :: "'a \<Rightarrow> 'a list \<Rightarrow> 'a list list" where
  "py_split sep [] = [[]]"
| "py_split sep (c # cs) =
     (if c = sep then [] # py_split sep cs
      else (case py_split sep cs of [] \<Rightarrow> [[c]] | w # ws \<Rightarrow> (c # w) # ws))"

text \<open>\<open>sep.join(xs)\<close>.\<close>

fun py_join :: "'a list \<Rightarrow> 'a list list \<Rightarrow> 'a list" where
  "py_join sep [] = []"
| "py_join sep [x] = x"
| "py_join sep (x # y # ys) = x @ sep @ py_join sep (y # ys)"

text \<open>The slice \<open>xs[:n]\<close>; a negative \<open>n\<close> counts from the end.\<close>

definition py_slice_to :: "int \<Rightarrow> 'a list \<Rightarrow> 'a list" where
  "py_slice_to n xs =
     (if 0 \<le> n then take (nat n) xs else take (length xs - nat (- n)) xs)"

text \<open>Decimal formatting of an integer, as an f-string does it.\<close>

definition digit_char :: "nat \<Rightarrow> char" where
  "digit_char d = ''0123456789'' ! d"

function str_nat :: "nat \<Rightarrow> string" where
  "str_nat n =
     (if n < 10 then [digit_char n] else str_nat (n div 10) @ [digit_char (n mod 10)])"
  by pat_completeness auto
termination
  by (relation "measure (\<lambda>n. n)") auto

declare str_nat.simps [simp del]

definition py_str :: "int \<Rightarrow> string" where
  "py_str i = (if i < 0 then CHR ''-'' # str_nat (nat (- i)) else str_nat (nat i))"

text \<open>
  \<open>str.isspace\<close> on one code point below 256, and \<open>s.strip()\<close>, which removes the
  whitespace at both ends.
\<close>

definition is_space :: "char \<Rightarrow> bool" where
  "is_space c =
     (let n = (of_char c :: nat)
      in (9 \<le> n \<and> n \<le> 13) \<or> (28 \<le> n \<and> n \<le> 32) \<or> n = 133 \<or> n = 160)"

definition py_strip :: "string \<Rightarrow> string" where
  "py_strip s = rev (dropWhile is_space (rev (dropWhile is_space s)))"

text \<open>\<open>s.lower()\<close> on code points below 256.\<close>

definition lower_char :: "char \<Rightarrow> char" where
  "lower_char c =
     (let n = (of_char c :: nat)
      in if (65 \<le> n \<and> n \<le> 90) \<or> (192 \<le> n \<and> n \<le> 222 \<and> n \<noteq> 215)
         then char_of (n + 32) else c)"

definition py_lower :: "string \<Rightarrow> string" where
  "py_lower s = map lower_char s"

text \<open>\<open>w in s\<close> on strings: \<open>w\<close> occurs in \<open>s\<close> as a contiguous block.\<close>

fun starts_with :: "'a list \<Rightarrow> 'a list \<Rightarrow> bool" where
  "starts_with [] s = True"
| "starts_with (w # ws) [] = False"
| "starts_with (w # ws) (c # cs) = (w = c \<and> starts_with ws cs)"

fun py_in :: "'a list \<Rightarrow> 'a list \<Rightarrow> bool" where
  "py_in w [] = (w = [])"
| "py_in w (c # cs) = (starts_with w (c # cs) \<or> py_in w cs)"

text \<open>
  \<open>max(xs, key=key)\<close>: the first element is the candidate, and a later element replaces
  it only when its key is strictly greater. On an empty list Python raises.
\<close>

fun max_from :: "('a \<Rightarrow> nat) \<Rightarrow> 'a \<Rightarrow> 'a list \<Rightarrow> 'a" where
  "max_from key best [] = best"
| "max_from key best (x # xs) = max_from key (if key best < key x then x else best) xs"

definition py_max :: "('a \<Rightarrow> nat) \<Rightarrow> 'a list \<Rightarrow> 'a option" where
  "py_max key xs = (case xs of [] \<Rightarrow> None | x # rest \<Rightarrow> Some (max_from key x rest))"

section \<open>Change Inspector: \<open>analyze_file_changes\<close>\<close>

text \<open>
  Each tool returns \<open>json.dumps\<close> of a dictionary; the model returns the dictionary, as
  a datatype with one constructor for each shape the code builds.
\<close>

text \<open>
  The world the tool runs in: the roots the session reports (or the message of the
  exception raised on the way to \<open>roots[0].uri.path\<close>), and \<open>subprocess.run\<close> as a function
  of the command and the working directory, which either raises or completes.
\<close>

record completed =
  returncode :: int
  stdout :: string
  stderr :: string

record git_env =
  roots :: "string + string list"
  run :: "string list \<Rightarrow> string \<Rightarrow> string + completed"

record changed_file =
  status :: string
  filename :: string

record change_report =
  stats :: string
  total_diff_lines :: nat
  files_changed :: "changed_file list"
  diff :: string

datatype analyze_response =
    Failure string
  | CommandFailed string string
  | Report change_report

definition working_dir :: "git_env \<Rightarrow> string + string" where
  "working_dir env =
     (case roots env of
        Inl e \<Rightarrow> Inl e
      | Inr [] \<Rightarrow> Inl ''list index out of range''
      | Inr (r # _) \<Rightarrow> Inr r)"

text \<open>The truncation of the diff (the \<open>if total_lines > max_diff_lines\<close> block).\<close>

definition truncation_notice :: "int \<Rightarrow> nat \<Rightarrow> string" where
  "truncation_notice max_diff_lines total_lines =
     ''... Output truncated. Showing '' @ py_str max_diff_lines @ '' of ''
       @ py_str (int total_lines) @ '' lines ...''"

definition truncate_diff :: "int \<Rightarrow> string \<Rightarrow> string" where
  "truncate_diff max_diff_lines diff_output =
     (let diff_lines = py_split NL diff_output;
          total_lines = length diff_lines
      in if max_diff_lines < int total_lines
         then py_join [NL] (py_slice_to max_diff_lines diff_lines)
                @ [NL, NL] @ truncation_notice max_diff_lines total_lines
         else diff_output)"

text \<open>The loop over the lines of the name-status output: its body, then the loop.\<close>

definition parse_line :: "changed_file list \<Rightarrow> string \<Rightarrow> changed_file list" where
  "parse_line changed_files line =
     (if line = [] then changed_files
      else (case py_split TAB line of
              p0 # p1 # _ \<Rightarrow> changed_files @ [\<lparr>status = p0, filename = p1\<rparr>]
            | _ \<Rightarrow> changed_files))"

definition parse_changed_files :: "string \<Rightarrow> changed_file list" where
  "parse_changed_files out = foldl parse_line [] (py_split NL (py_strip out))"

definition analyze_file_changes ::
  "git_env \<Rightarrow> string \<Rightarrow> bool \<Rightarrow> int \<Rightarrow> analyze_response" where
  "analyze_file_changes env base_branch include_diff max_diff_lines =
     (case working_dir env of
        Inl e \<Rightarrow> Failure e
      | Inr wd \<Rightarrow>
     (let diff_cmd = [''git'', ''diff'', base_branch @ ''...HEAD''] in
      case run env diff_cmd wd of
        Inl e \<Rightarrow> Failure e
      | Inr diff_result \<Rightarrow>
      if returncode diff_result \<noteq> 0
      then CommandFailed (''Git diff command failed: '' @ stderr diff_result)
             (py_join '' '' diff_cmd)
      else
     (let diff_output = truncate_diff max_diff_lines (stdout diff_result);
          total_lines = length (py_split NL (stdout diff_result));
          stats_cmd = [''git'', ''diff'', ''--stat'', base_branch @ ''...HEAD''] in
      case run env stats_cmd wd of
        Inl e \<Rightarrow> Failure e
      | Inr stats_result \<Rightarrow>
      if returncode stats_result \<noteq> 0
      then CommandFailed (''Git diff --stat command failed: '' @ stderr stats_result)
             (py_join '' '' stats_cmd)
      else
     (let files_cmd = [''git'', ''diff'', ''--name-status'', base_branch @ ''...HEAD''] in
      case run env files_cmd wd of
        Inl e \<Rightarrow> Failure e
      | Inr files_result \<Rightarrow>
      if returncode files_result \<noteq> 0
      then CommandFailed
             (''Git diff --name-status command failed: '' @ stderr files_result)
             (py_join '' '' files_cmd)
      else Report
        \<lparr>stats = stdout stats_result,
         total_diff_lines = total_lines,
         files_changed = parse_changed_files (stdout files_result),
         diff = (if include_diff then diff_output
                 else ''Diff not included (set include_diff=true to see it)'')\<rparr>))))"

section \<open>Template Registry: \<open>get_pr_templates\<close>\<close>

text \<open>
  The templates directory: its path as a string, and either nothing (it does not exist
  or is no directory) or its entries in the order the scan yields them, each with the
  outcome of opening and reading it (\<open>Inl\<close> the message of the exception, \<open>Inr\<close> the
  content).
\<close>

record templates_fs =
  templates_dir :: string
  listing :: "(string \<times> (string + string)) list option"

datatype template =
    Template string string string
  | Unreadable string string

datatype templates_response =
    TemplatesError string
  | Templates "(string \<times> template) list" nat string

fun ends_with :: "'a list \<Rightarrow> 'a list \<Rightarrow> bool" where
  "ends_with suffix s = starts_with (rev suffix) (rev s)"

text \<open>
  \<open>glob("*.md")\<close>: the entries whose name ends with \<open>.md\<close>, in scan order (names
  are compared exactly, as on a case-sensitive file system).
\<close>

definition glob_md ::
  "(string \<times> (string + string)) list \<Rightarrow> (string \<times> (string + string)) list" where
  "glob_md entries = filter (\<lambda>e. ends_with ''.md'' (fst e)) entries"

text \<open>
  \<open>Path.stem\<close>: the name without its last suffix; a name whose only dot is the first
  or the last character has no suffix.
\<close>

fun rfind :: "'a \<Rightarrow> 'a list \<Rightarrow> nat option" where
  "rfind c [] = None"
| "rfind c (x # xs) =
     (case rfind c xs of
        Some i \<Rightarrow> Some (Suc i)
      | None \<Rightarrow> if x = c then Some 0 else None)"

definition stem :: "string \<Rightarrow> string" where
  "stem fname =
     (case rfind (CHR ''.'') fname of
        None \<Rightarrow> fname
      | Some i \<Rightarrow> if 0 < i \<and> i < length fname - 1 then take i fname else fname)"

text \<open>
  The loop over the globbed files; \<open>str(template_file)\<close> is the directory, a slash and
  the name. \<open>templates[k] = v\<close> keeps the position of a key
  already present and appends a new one, as \<open>AList.update\<close> does.
\<close>

fun read_templates ::
  "string \<Rightarrow> (string \<times> (string + string)) list \<Rightarrow> (string \<times> template) list
     \<Rightarrow> (string \<times> template) list" where
  "read_templates dir [] templates = templates"
| "read_templates dir ((fname, outcome) # rest) templates =
     (case outcome of
        Inr content \<Rightarrow>
          read_templates dir rest
            (AList.update (stem fname)
               (Template (stem fname) (dir @ ''/'' @ fname) content) templates)
      | Inl e \<Rightarrow>
          read_templates dir rest
            (AList.update fname
               (Unreadable fname (''Failed to read template: '' @ e)) templates))"

definition get_pr_templates :: "templates_fs \<Rightarrow> templates_response" where
  "get_pr_templates fs =
     (case listing fs of
        None \<Rightarrow> TemplatesError (''Templates directory not found at '' @ templates_dir fs)
      | Some entries \<Rightarrow>
          (let templates = read_templates (templates_dir fs) (glob_md entries) []
           in Templates templates (length templates) (templates_dir fs)))"

text \<open>The key under which the loop stores a file: its stem when read, its name when not.\<close>

fun entry_key :: "string \<times> (string + string) \<Rightarrow> string" where
  "entry_key (fname, Inr content) = stem fname"
| "entry_key (fname, Inl e) = fname"

section \<open>Template Recommender: \<open>suggest_template\<close>\<close>

datatype confidence = High | Medium | Low

datatype recommendation =
    NoSuggestion string
  | Suggestion string template confidence string

definition common_types :: "(string \<times> string) list" where
  "common_types =
     [(''bug'', ''bug''), (''fix'', ''bug''), (''bugfix'', ''bug''),
      (''feature'', ''feature''), (''feat'', ''feature''), (''enhancement'', ''feature''),
      (''docs'', ''docs''), (''documentation'', ''docs''),
      (''refactor'', ''refactor''),
      (''test'', ''test''), (''tests'', ''test''), (''testing'', ''test''),
      (''security'', ''security''),
      (''performance'', ''performance''), (''perf'', ''performance''),
      (''optimization'', ''performance'')]"

definition keywords_dict :: "(string \<times> string list) list" where
  "keywords_dict =
     [(''bug'', [''bug'', ''fix'', ''issue'', ''problem'', ''error'', ''crash'', ''resolve'']),
      (''feature'',
         [''feature'', ''add'', ''new'', ''implement'', ''enhancement'', ''functionality'']),
      (''docs'', [''docs'', ''documentation'', ''readme'', ''comment'', ''guide'', ''tutorial'']),
      (''refactor'',
         [''refactor'', ''clean'', ''improve'', ''simplify'', ''restructure'', ''redesign'']),
      (''test'',
         [''test'', ''coverage'', ''unit test'', ''integration test'', ''e2e'', ''testing'']),
      (''security'',
         [''security'', ''vulnerability'', ''secure'', ''protect'', ''encrypt'', ''auth'']),
      (''performance'',
         [''performance'', ''optimize'', ''speed'', ''efficient'', ''fast'', ''slow''])]"

text \<open>
  The scores: one entry per category, in the order of the \<open>keywords\<close> dictionary, counting the words of
  the category that occur in the lower-cased summary.
\<close>

definition score_words :: "string \<Rightarrow> string list \<Rightarrow> nat" where
  "score_words summary_lower ws = length (filter (\<lambda>w. py_in w summary_lower) ws)"

definition scores :: "string \<Rightarrow> (string \<times> nat) list" where
  "scores changes_summary =
     map (\<lambda>(template_type, ws). (template_type, score_words (py_lower changes_summary) ws))
       keywords_dict"

definition best_match :: "string \<Rightarrow> (string \<times> nat) option" where
  "best_match changes_summary = py_max snd (scores changes_summary)"

text \<open>
  The three stages, on the templates already fetched. The tool gets them by calling
  \<open>get_pr_templates\<close> and parsing the JSON text it returns, which gives back the
  dictionary with its keys in the same order.
\<close>

definition direct_match ::
  "(string \<times> template) list \<Rightarrow> string \<Rightarrow> recommendation option" where
  "direct_match templates change_type =
     (case map_of common_types (py_strip (py_lower change_type)) of
        None \<Rightarrow> None
      | Some suggested_template \<Rightarrow>
          (case map_of templates suggested_template of
             None \<Rightarrow> None
           | Some t \<Rightarrow>
               Some (Suggestion suggested_template t High
                 (''Direct match for change type '' @ [CHR 0x27] @ change_type @ [CHR 0x27]))))"

definition keyword_match ::
  "(string \<times> template) list \<Rightarrow> string \<Rightarrow> recommendation option" where
  "keyword_match templates changes_summary =
     (case best_match changes_summary of
        None \<Rightarrow> Some (NoSuggestion ''max() arg is an empty sequence'')
      | Some (template_type, score) \<Rightarrow>
          if 0 < score
          then (case map_of templates template_type of
                  None \<Rightarrow> None
                | Some t \<Rightarrow>
                    Some (Suggestion template_type t (if 2 < score then Medium else Low)
                      (''Based on '' @ py_str (int score)
                         @ '' keyword matches in the changes summary'')))
          else None)"

definition default_template :: "(string \<times> template) list \<Rightarrow> recommendation" where
  "default_template templates =
     (case map_of templates ''feature'' of
        Some t \<Rightarrow>
          Suggestion ''feature'' t Low
            ''No strong match found, defaulting to feature template''
      | None \<Rightarrow>
          (case templates of
             [] \<Rightarrow> NoSuggestion ''''
           | (first_template_name, t) # _ \<Rightarrow>
               Suggestion first_template_name t Low
                 ''No match found, using first available template''))"

definition suggest_template :: "templates_fs \<Rightarrow> string \<Rightarrow> string \<Rightarrow> recommendation" where
  "suggest_template fs changes_summary change_type =
     (case get_pr_templates fs of
        TemplatesError e \<Rightarrow> NoSuggestion (''Failed to get templates: '' @ e)
      | Templates templates count dir \<Rightarrow>
          if count = 0 then NoSuggestion ''No templates available''
          else (case direct_match templates change_type of
                  Some r \<Rightarrow> r
                | None \<Rightarrow>
                    (case keyword_match templates changes_summary of
                       Some r \<Rightarrow> r
                     | None \<Rightarrow> default_template templates)))"

section \<open>Sample worlds\<close>

text \<open>
  A repository in which the three commands against \<open>main\<close> succeed with the given
  outputs; any other command raises.
\<close>

definition sample_repo :: "string \<Rightarrow> string \<Rightarrow> string \<Rightarrow> git_env" where
  "sample_repo d s f =
     \<lparr>roots = Inr [''/repo''],
      run = (\<lambda>cmd cwd.
        if cmd = [''git'', ''diff'', ''main...HEAD'']
        then Inr \<lparr>returncode = 0, stdout = d, stderr = ''''\<rparr>
        else if cmd = [''git'', ''diff'', ''--stat'', ''main...HEAD'']
        then Inr \<lparr>returncode = 0, stdout = s, stderr = ''''\<rparr>
        else if cmd = [''git'', ''diff'', ''--name-status'', ''main...HEAD'']
        then Inr \<lparr>returncode = 0, stdout = f, stderr = ''''\<rparr>
        else Inl ''unknown command'')\<rparr>"

text \<open>A name-status output: a modified file, a line without a tab, and a rename.\<close>

definition sample_status :: string where
  "sample_status = ''M'' @ [TAB] @ ''file.py'' @ [NL] @ ''README'' @ [NL]
                     @ ''R100'' @ [TAB] @ ''old.py'' @ [TAB] @ ''new.py'' @ [NL]"

text \<open>A templates directory that exists, with the given entries.\<close>

definition sample_templates :: "(string \<times> (string + string)) list \<Rightarrow> templates_fs" where
  "sample_templates entries = \<lparr>templates_dir = ''/templates'', listing = Some entries\<rparr>"

text \<open>Three such directories, each with two templates that can be read.\<close>

definition docs_and_feature :: templates_fs where
  "docs_and_feature =
     sample_templates [(''docs.md'', Inr ''D''), (''feature.md'', Inr ''F'')]"

definition test_and_docs :: templates_fs where
  "test_and_docs = sample_templates [(''test.md'', Inr ''T''), (''docs.md'', Inr ''D'')]"

definition bug_and_feature :: templates_fs where
  "bug_and_feature = sample_templates [(''bug.md'', Inr ''B''), (''feature.md'', Inr ''F'')]"

section \<open>Facts about the string operations\<close>

lemma py_split_not_Nil: "py_split sep s \<noteq> []"
  by (induction s) (auto split: list.splits)

lemma py_split_no_sep: "l \<in> set (py_split sep s) \<Longrightarrow> sep \<notin> set l"
  by (induction s arbitrary: l) (auto split: if_splits list.splits)

lemma py_split_append_sep:
  "py_split sep (a @ sep # b) = py_split sep a @ py_split sep b"
  by (induction a) (auto split: list.splits simp: py_split_not_Nil)

lemma py_split_whole: "sep \<notin> set s \<Longrightarrow> py_split sep s = [s]"
  by (induction s) auto

lemma py_split_join:
  "ls \<noteq> [] \<Longrightarrow> \<forall>l\<in>set ls. sep \<notin> set l \<Longrightarrow> py_split sep (py_join [sep] ls) = ls"
proof (induction ls rule: induct_list012)
  case 1
  then show ?case by simp
next
  case (2 x)
  then show ?case by (simp add: py_split_whole)
next
  case (3 x y zs)
  then show ?case by (simp add: py_split_append_sep py_split_whole)
qed

lemma py_join_split: "py_join [sep] (py_split sep s) = s"
proof (induction s)
  case Nil
  then show ?case by simp
next
  case (Cons c cs)
  show ?case
  proof (cases "py_split sep cs")
    case Nil
    then show ?thesis by (simp add: py_split_not_Nil)
  next
    case (Cons w ws)
    with Cons.IH show ?thesis by (cases ws) auto
  qed
qed

lemma py_split_subset: "f \<in> set (py_split sep s) \<Longrightarrow> set f \<subseteq> set s"
proof (induction s arbitrary: f)
  case Nil
  then show ?case by simp
next
  case (Cons c cs)
  show ?case
  proof (cases "c = sep")
    case True
    with Cons show ?thesis by auto
  next
    case False
    obtain w ws where ws: "py_split sep cs = w # ws"
      using py_split_not_Nil [of sep cs] by (cases "py_split sep cs") auto
    with False Cons.prems have "f = c # w \<or> f \<in> set ws" by simp
    then show ?thesis
    proof
      assume "f = c # w"
      moreover have "set w \<subseteq> set cs" using Cons.IH [of w] ws by simp
      ultimately show ?thesis by auto
    next
      assume "f \<in> set ws"
      then have "set f \<subseteq> set cs" using Cons.IH [of f] ws by simp
      then show ?thesis by auto
    qed
  qed
qed

lemma digit_char_not_NL: "d < 10 \<Longrightarrow> NL \<noteq> digit_char d"
proof -
  assume "d < 10"
  then have "d \<in> {0,1,2,3,4,5,6,7,8,9}" by auto
  then show ?thesis by (auto simp: digit_char_def)
qed

lemma str_nat_no_NL: "NL \<notin> set (str_nat n)"
proof (induction n rule: str_nat.induct)
  case (1 n)
  show ?case
  proof (cases "n < 10")
    case True
    then show ?thesis by (simp add: str_nat.simps [of n] digit_char_not_NL)
  next
    case False
    with 1 show ?thesis by (simp add: str_nat.simps [of n] digit_char_not_NL)
  qed
qed

lemma py_str_no_NL: "NL \<notin> set (py_str i)"
  by (simp add: py_str_def str_nat_no_NL)

lemma truncation_notice_no_NL: "NL \<notin> set (truncation_notice n m)"
  by (simp add: truncation_notice_def py_str_no_NL)

lemma py_split_truncated:
  assumes "ls \<noteq> []" and "\<forall>l\<in>set ls. NL \<notin> set l" and "NL \<notin> set notice"
  shows "py_split NL (py_join [NL] ls @ [NL, NL] @ notice) = ls @ [[], notice]"
proof -
  have "py_split NL (py_join [NL] ls @ NL # (NL # notice))
          = py_split NL (py_join [NL] ls) @ py_split NL (NL # notice)"
    by (rule py_split_append_sep)
  with assms show ?thesis by (simp add: py_split_join py_split_whole)
qed

text \<open>The containment test finds exactly the contiguous occurrences.\<close>

lemma starts_with_iff: "starts_with w s \<longleftrightarrow> (\<exists>q. s = w @ q)"
  by (induction w s rule: starts_with.induct) auto

lemma py_in_iff: "py_in w s \<longleftrightarrow> (\<exists>p q. s = p @ w @ q)"
proof (induction s)
  case Nil
  then show ?case by simp
next
  case (Cons c cs)
  show ?case
  proof
    assume "py_in w (c # cs)"
    then have "starts_with w (c # cs) \<or> py_in w cs" by simp
    then show "\<exists>p q. c # cs = p @ w @ q"
    proof
      assume "starts_with w (c # cs)"
      then obtain q where "c # cs = [] @ w @ q" by (auto simp: starts_with_iff)
      then show ?thesis by blast
    next
      assume "py_in w cs"
      with Cons.IH obtain p q where "cs = p @ w @ q" by blast
      then have "c # cs = (c # p) @ w @ q" by simp
      then show ?thesis by blast
    qed
  next
    assume "\<exists>p q. c # cs = p @ w @ q"
    then obtain p q where pq: "c # cs = p @ w @ q" by blast
    show "py_in w (c # cs)"
    proof (cases p)
      case Nil
      with pq have "starts_with w (c # cs)" by (auto simp: starts_with_iff)
      then show ?thesis by simp
    next
      case (Cons a p')
      with pq have "cs = p' @ w @ q" by simp
      with Cons.IH have "py_in w cs" by blast
      then show ?thesis by simp
    qed
  qed
qed

text \<open>
  Stripping an output that begins and ends its text with characters that are no
  whitespace, and closes with one newline, removes that newline only.
\<close>

lemma py_strip_final_newline:
  assumes "s \<noteq> []" and "\<not> is_space (hd s)" and "\<not> is_space (last s)"
  shows "py_strip (s @ [NL]) = s"
proof -
  obtain c cs where s: "s = c # cs" using assms(1) by (cases s) auto
  with assms(2) have front: "dropWhile is_space (s @ [NL]) = s @ [NL]" by simp
  have nl: "is_space NL" by (simp add: is_space_def)
  obtain ds d where r: "s = ds @ [d]" using assms(1) by (cases s rule: rev_cases) auto
  with assms(3) have rear: "dropWhile is_space (rev s) = rev s" by simp
  show ?thesis by (simp add: py_strip_def front nl rear)
qed

lemma py_join_not_Nil: "ls \<noteq> [] \<Longrightarrow> hd ls \<noteq> [] \<Longrightarrow> py_join sep ls \<noteq> []"
  by (induction sep ls rule: py_join.induct) auto

lemma hd_py_join: "ls \<noteq> [] \<Longrightarrow> hd ls \<noteq> [] \<Longrightarrow> hd (py_join sep ls) = hd (hd ls)"
  by (induction sep ls rule: py_join.induct) auto

lemma last_py_join:
  "ls \<noteq> [] \<Longrightarrow> last ls \<noteq> [] \<Longrightarrow> last (py_join sep ls) = last (last ls)"
proof (induction sep ls rule: py_join.induct)
  case (3 sep x y ys)
  then have "py_join sep (y # ys) \<noteq> []"
    by (induction sep "y # ys" arbitrary: y ys rule: py_join.induct) auto
  with 3 show ?case by simp
qed auto

section \<open>Change Inspector: the shape of a report\<close>

lemma analyze_Report:
  assumes "analyze_file_changes env b inc n = Report r"
  shows "\<exists>wd dres sres fres.
           working_dir env = Inr wd
         \<and> run env [''git'', ''diff'', b @ ''...HEAD''] wd = Inr dres
         \<and> run env [''git'', ''diff'', ''--stat'', b @ ''...HEAD''] wd = Inr sres
         \<and> run env [''git'', ''diff'', ''--name-status'', b @ ''...HEAD''] wd = Inr fres
         \<and> returncode dres = 0 \<and> returncode sres = 0 \<and> returncode fres = 0
         \<and> r = \<lparr>stats = stdout sres,
                 total_diff_lines = length (py_split NL (stdout dres)),
                 files_changed = parse_changed_files (stdout fres),
                 diff = (if inc then truncate_diff n (stdout dres)
                         else ''Diff not included (set include_diff=true to see it)'')\<rparr>"
  using assms
  by (auto simp: analyze_file_changes_def Let_def split: sum.splits if_splits)

lemma analyze_success:
  assumes "working_dir env = Inr wd"
    and "run env [''git'', ''diff'', b @ ''...HEAD''] wd = Inr dres"
    and "run env [''git'', ''diff'', ''--stat'', b @ ''...HEAD''] wd = Inr sres"
    and "run env [''git'', ''diff'', ''--name-status'', b @ ''...HEAD''] wd = Inr fres"
    and "returncode dres = 0" and "returncode sres = 0" and "returncode fres = 0"
  shows "analyze_file_changes env b inc n =
           Report \<lparr>stats = stdout sres,
                   total_diff_lines = length (py_split NL (stdout dres)),
                   files_changed = parse_changed_files (stdout fres),
                   diff = (if inc then truncate_diff n (stdout dres)
                           else ''Diff not included (set include_diff=true to see it)'')\<rparr>"
  using assms by (simp add: analyze_file_changes_def Let_def)

lemma sample_wd: "working_dir (sample_repo d s f) = Inr ''/repo''"
  by (simp add: working_dir_def sample_repo_def)

lemma sample_run_diff:
  "run (sample_repo d s f) [''git'', ''diff'', ''main'' @ ''...HEAD''] ''/repo''
     = Inr \<lparr>returncode = 0, stdout = d, stderr = ''''\<rparr>"
  by (simp add: sample_repo_def)

lemma sample_run_stat:
  "run (sample_repo d s f) [''git'', ''diff'', ''--stat'', ''main'' @ ''...HEAD''] ''/repo''
     = Inr \<lparr>returncode = 0, stdout = s, stderr = ''''\<rparr>"
  by (simp add: sample_repo_def)

lemma sample_run_files:
  "run (sample_repo d s f) [''git'', ''diff'', ''--name-status'', ''main'' @ ''...HEAD''] ''/repo''
     = Inr \<lparr>returncode = 0, stdout = f, stderr = ''''\<rparr>"
  by (simp add: sample_repo_def)

section \<open>Change Inspector: truncation of the diff\<close>

lemma truncate_diff_short:
  "int (length (py_split NL d)) \<le> n \<Longrightarrow> truncate_diff n d = d"
  by (simp add: truncate_diff_def Let_def)

lemma truncate_diff_long:
  assumes "0 \<le> n" and "n < int (length (py_split NL d))"
  shows "py_split NL (truncate_diff n d) =
           (if n = 0 then [[]] else take (nat n) (py_split NL d))
             @ [[], truncation_notice n (length (py_split NL d))]"
proof (cases "n = 0")
  case True
  then show ?thesis
    using assms
    by (simp add: truncate_diff_def Let_def py_slice_to_def py_split_whole
          truncation_notice_no_NL)
next
  case False
  let ?ls = "take (nat n) (py_split NL d)"
  from False assms have ne: "?ls \<noteq> []"
    by (auto simp: py_split_not_Nil)
  have clean: "\<forall>l\<in>set ?ls. NL \<notin> set l"
    by (meson in_set_takeD py_split_no_sep)
  have "truncate_diff n d =
          py_join [NL] ?ls @ [NL, NL] @ truncation_notice n (length (py_split NL d))"
    using assms by (simp add: truncate_diff_def Let_def py_slice_to_def)
  with False show ?thesis
    by (simp only: py_split_truncated [OF ne clean truncation_notice_no_NL] if_False)
qed

text \<open>
  Claim C1, as the code has it. Let the cap \<open>n\<close> be non-negative and let the diff have
  \<open>M\<close> lines (pieces of its split on newline). When \<open>M \<le> n\<close> the \<open>diff\<close> field of the report
  is the output of the diff command, unchanged. When \<open>M > n\<close> the field is the first \<open>n\<close>
  lines, then an empty line, then the notice line, which gives \<open>n\<close> and \<open>M\<close> in decimal:
  its line count is \<open>n + 2\<close> (and 3 when \<open>n = 0\<close>, where the joined prefix is the empty
  string), not \<open>n + 1\<close>.
\<close>

theorem diff_truncation:
  assumes "0 \<le> n"
    and "working_dir env = Inr wd"
    and "run env [''git'', ''diff'', b @ ''...HEAD''] wd = Inr res"
    and "analyze_file_changes env b True n = Report r"
  shows "(int (length (py_split NL (stdout res))) \<le> n \<longrightarrow> diff r = stdout res)
       \<and> (n < int (length (py_split NL (stdout res))) \<longrightarrow>
            py_split NL (diff r) =
              (if n = 0 then [[]] else take (nat n) (py_split NL (stdout res)))
                @ [[], ''... Output truncated. Showing '' @ py_str n @ '' of ''
                         @ py_str (int (length (py_split NL (stdout res)))) @ '' lines ...'']
          \<and> length (py_split NL (diff r)) = (if n = 0 then 3 else nat n + 2))"
proof -
  from analyze_Report [OF assms(4)] assms(2,3)
  have d: "diff r = truncate_diff n (stdout res)" by auto
  show ?thesis
  proof (intro conjI impI)
    assume "int (length (py_split NL (stdout res))) \<le> n"
    then show "diff r = stdout res" by (simp add: d truncate_diff_short)
  next
    assume long: "n < int (length (py_split NL (stdout res)))"
    from truncate_diff_long [OF assms(1) long]
    show "py_split NL (diff r) =
              (if n = 0 then [[]] else take (nat n) (py_split NL (stdout res)))
                @ [[], ''... Output truncated. Showing '' @ py_str n @ '' of ''
                         @ py_str (int (length (py_split NL (stdout res)))) @ '' lines ...'']"
      by (simp add: d truncation_notice_def)
  next
    assume long: "n < int (length (py_split NL (stdout res)))"
    from truncate_diff_long [OF assms(1) long] assms(1) long
    show "length (py_split NL (diff r)) = (if n = 0 then 3 else nat n + 2)"
      by (auto simp: d)
  qed
qed

theorem diff_truncation_witness:
  "(0::int) \<le> 1
   \<and> working_dir (sample_repo ''a\<newline>b'' ''s'' '''') = Inr ''/repo''
   \<and> run (sample_repo ''a\<newline>b'' ''s'' '''') [''git'', ''diff'', ''main'' @ ''...HEAD''] ''/repo''
       = Inr \<lparr>returncode = 0, stdout = ''a\<newline>b'', stderr = ''''\<rparr>
   \<and> analyze_file_changes (sample_repo ''a\<newline>b'' ''s'' '''') ''main'' True 1
       = Report \<lparr>stats = ''s'', total_diff_lines = 2, files_changed = [],
           diff = ''a\<newline>\<newline>... Output truncated. Showing 1 of 2 lines ...''\<rparr>
   \<and> py_split NL ''a\<newline>\<newline>... Output truncated. Showing 1 of 2 lines ...''
       = [''a'', [], ''... Output truncated. Showing 1 of 2 lines ...'']
   \<and> length (py_split NL ''a\<newline>\<newline>... Output truncated. Showing 1 of 2 lines ...'') = 3"
proof -
  have h1: "(0::int) \<le> 1" by simp
  have h2: "working_dir (sample_repo ''a\<newline>b'' ''s'' '''') = Inr ''/repo''"
    by (rule sample_wd)
  have h3: "run (sample_repo ''a\<newline>b'' ''s'' '''') [''git'', ''diff'', ''main'' @ ''...HEAD''] ''/repo''
       = Inr \<lparr>returncode = 0, stdout = ''a\<newline>b'', stderr = ''''\<rparr>"
    by (simp add: sample_repo_def)
  have h4: "analyze_file_changes (sample_repo ''a\<newline>b'' ''s'' '''') ''main'' True 1
       = Report \<lparr>stats = ''s'', total_diff_lines = 2, files_changed = [],
           diff = ''a\<newline>\<newline>... Output truncated. Showing 1 of 2 lines ...''\<rparr>"
    by code_simp
  from diff_truncation [OF h1 h2 h3 h4] h1 h2 h3 h4 show ?thesis
    by simp
qed

text \<open>
  With a cap of 1 and a diff of the two lines \<open>a\<close> and \<open>b\<close> the \<open>diff\<close> field has three lines: the
  notice is appended after two newlines, so an empty line stands before it.
\<close>

theorem diff_line_count_counterexample:
  "analyze_file_changes (sample_repo ''a\<newline>b'' ''s'' '''') ''main'' True 1
     = Report \<lparr>stats = ''s'', total_diff_lines = 2, files_changed = [],
         diff = ''a\<newline>\<newline>... Output truncated. Showing 1 of 2 lines ...''\<rparr>
   \<and> length (py_split NL ''a\<newline>b'') = 2
   \<and> length (py_split NL ''a\<newline>\<newline>... Output truncated. Showing 1 of 2 lines ...'') \<noteq> 1 + 1"
  by code_simp

section \<open>Change Inspector: parsing of the name-status output\<close>

lemma parse_line_acc: "parse_line acc l = acc @ parse_line [] l"
  by (simp add: parse_line_def split: list.splits)

lemma foldl_parse_line: "foldl parse_line acc ls = acc @ foldl parse_line [] ls"
proof (induction ls arbitrary: acc)
  case Nil
  then show ?case by simp
next
  case (Cons l ls)
  have "foldl parse_line acc (l # ls) = foldl parse_line (parse_line acc l) ls" by simp
  also have "\<dots> = parse_line acc l @ foldl parse_line [] ls" by (rule Cons.IH)
  also have "\<dots> = acc @ parse_line [] l @ foldl parse_line [] ls"
    using parse_line_acc [of acc l] by simp
  also have "parse_line [] l @ foldl parse_line [] ls = foldl parse_line (parse_line [] l) ls"
    by (rule Cons.IH [symmetric])
  finally show ?case by simp
qed

lemma foldl_parse_line_split:
  "foldl parse_line [] (before @ line # after) =
     foldl parse_line [] before @ parse_line [] line @ foldl parse_line [] after"
proof -
  have "foldl parse_line [] (before @ line # after) =
          foldl parse_line (parse_line (foldl parse_line [] before) line) after"
    by simp
  also have "\<dots> = parse_line (foldl parse_line [] before) line @ foldl parse_line [] after"
    by (rule foldl_parse_line)
  finally show ?thesis using parse_line_acc [of "foldl parse_line [] before" line] by simp
qed

lemma foldl_parse_line_Cons:
  "foldl parse_line [] (l # ls) = parse_line [] l @ foldl parse_line [] ls"
proof -
  have "foldl parse_line [] (l # ls) = foldl parse_line (parse_line [] l) ls" by simp
  then show ?thesis by (simp only: foldl_parse_line [of "parse_line [] l" ls])
qed

lemma split_two_fields:
  "TAB \<notin> set a \<Longrightarrow> TAB \<notin> set b \<Longrightarrow> py_split TAB (a @ TAB # b) = [a, b]"
  by (simp add: py_split_append_sep py_split_whole)

lemma split_more_fields:
  "TAB \<notin> set a \<Longrightarrow> TAB \<notin> set b \<Longrightarrow>
     py_split TAB (a @ TAB # b @ TAB # tail) = a # b # py_split TAB tail"
  by (simp add: py_split_append_sep py_split_whole)

lemma parse_line_two: 
  "TAB \<notin> set a \<Longrightarrow> TAB \<notin> set b \<Longrightarrow>
     parse_line acc (a @ TAB # b) = acc @ [\<lparr>status = a, filename = b\<rparr>]"
  by (simp add: parse_line_def split_two_fields)

lemma parse_line_one: "TAB \<notin> set l \<Longrightarrow> parse_line acc l = acc"
  by (simp add: parse_line_def py_split_whole)

lemma parse_line_more:
  "TAB \<notin> set a \<Longrightarrow> TAB \<notin> set b \<Longrightarrow>
     parse_line acc (a @ TAB # b @ TAB # tail) = acc @ [\<lparr>status = a, filename = b\<rparr>]"
  by (simp add: parse_line_def split_more_fields)

lemma parse_changed_files_split:
  assumes "py_split NL (py_strip out) = before @ line # after"
  shows "parse_changed_files out =
           foldl parse_line [] before @ parse_line [] line @ foldl parse_line [] after"
  unfolding parse_changed_files_def assms by (rule foldl_parse_line_split)

lemma parse_line_entry:
  assumes "cf \<in> set (parse_line [] l)"
  shows "l \<noteq> [] \<and> (\<exists>tail. py_split TAB l = status cf # filename cf # tail)"
proof (cases "l = []")
  case True
  with assms show ?thesis by (simp add: parse_line_def)
next
  case False
  show ?thesis
  proof (cases "py_split TAB l")
    case Nil
    with assms False show ?thesis by (simp add: parse_line_def)
  next
    case (Cons p0 ps)
    show ?thesis
    proof (cases ps)
      case Nil
      with assms False Cons show ?thesis by (simp add: parse_line_def)
    next
      case (Cons p1 tail)
      with assms False \<open>py_split TAB l = p0 # ps\<close>
      have "cf = \<lparr>status = p0, filename = p1\<rparr>" by (simp add: parse_line_def)
      with False Cons \<open>py_split TAB l = p0 # ps\<close> show ?thesis by simp
    qed
  qed
qed

lemma foldl_parse_line_entry:
  "cf \<in> set (foldl parse_line [] ls) \<Longrightarrow>
     \<exists>l\<in>set ls. l \<noteq> [] \<and> (\<exists>tail. py_split TAB l = status cf # filename cf # tail)"
proof (induction ls)
  case Nil
  then show ?case by simp
next
  case (Cons l ls)
  from Cons.prems have "cf \<in> set (parse_line [] l) \<or> cf \<in> set (foldl parse_line [] ls)"
    by (simp only: foldl_parse_line_Cons set_append Un_iff)
  then show ?case
  proof
    assume "cf \<in> set (parse_line [] l)"
    from parse_line_entry [OF this] show ?thesis by simp
  next
    assume "cf \<in> set (foldl parse_line [] ls)"
    from Cons.IH [OF this] show ?thesis by auto
  qed
qed

lemma sample_status_lines:
  "py_split NL (py_strip sample_status) =
     [''M'' @ [TAB] @ ''file.py'', ''README'', ''R100'' @ [TAB] @ ''old.py'' @ [TAB] @ ''new.py'']"
  by (simp add: sample_status_def py_strip_def is_space_def)

text \<open>
  The lines the loop takes are those of the output once the whitespace at its two ends
  is removed. For an output of the usual form (every line closed by a newline, the
  first line beginning and the last line ending with a character that is no
  whitespace) they are the lines of the output itself.
\<close>

lemma ordinary_output_lines:
  assumes "ls \<noteq> []" and "\<forall>l\<in>set ls. NL \<notin> set l"
    and "hd ls \<noteq> []" and "\<not> is_space (hd (hd ls))"
    and "last ls \<noteq> []" and "\<not> is_space (last (last ls))"
  shows "py_split NL (py_strip (py_join [NL] ls @ [NL])) = ls"
proof -
  have "py_strip (py_join [NL] ls @ [NL]) = py_join [NL] ls"
    using assms
    by (intro py_strip_final_newline) (simp_all add: py_join_not_Nil hd_py_join last_py_join)
  then show ?thesis using assms(1,2) by (simp add: py_split_join)
qed

text \<open>
  Claim C6. Parsing the name-status output is a total function: no line makes it fail.
  The lines are those of the output with the whitespace at its two ends removed, as the
  loop takes them. A line of two tab-separated fields \<open>a\<close> and \<open>b\<close> contributes exactly
  the one entry with status \<open>a\<close> and filename \<open>b\<close>, at its place among the entries of
  the lines before and after it; a line without a tab (one field, or empty) contributes
  nothing and is passed over.
\<close>

theorem name_status_parsing:
  assumes "py_split NL (py_strip out) = before @ line # after"
  shows "(TAB \<notin> set a \<and> TAB \<notin> set b \<and> line = a @ TAB # b \<longrightarrow>
            parse_changed_files out =
              foldl parse_line [] before @ [\<lparr>status = a, filename = b\<rparr>]
                @ foldl parse_line [] after)
       \<and> (TAB \<notin> set line \<longrightarrow>
            parse_changed_files out = foldl parse_line [] before @ foldl parse_line [] after)"
proof (intro conjI impI)
  assume "TAB \<notin> set a \<and> TAB \<notin> set b \<and> line = a @ TAB # b"
  then have "parse_line [] line = [\<lparr>status = a, filename = b\<rparr>]"
    using parse_line_two [of a b "[]"] by simp
  with parse_changed_files_split [OF assms]
  show "parse_changed_files out =
          foldl parse_line [] before @ [\<lparr>status = a, filename = b\<rparr>]
            @ foldl parse_line [] after"
    by simp
next
  assume "TAB \<notin> set line"
  then have "parse_line [] line = []" by (rule parse_line_one)
  with parse_changed_files_split [OF assms]
  show "parse_changed_files out = foldl parse_line [] before @ foldl parse_line [] after"
    by simp
qed

theorem name_status_parsing_witness:
  "py_split NL (py_strip sample_status) =
     [] @ (''M'' @ TAB # ''file.py'')
        # [''README'', ''R100'' @ [TAB] @ ''old.py'' @ [TAB] @ ''new.py'']
   \<and> TAB \<notin> set ''M'' \<and> TAB \<notin> set ''file.py''
   \<and> py_split NL (py_strip sample_status) =
     [''M'' @ TAB # ''file.py''] @ ''README''
        # [''R100'' @ [TAB] @ ''old.py'' @ [TAB] @ ''new.py'']
   \<and> TAB \<notin> set ''README''
   \<and> parse_changed_files sample_status =
       [\<lparr>status = ''M'', filename = ''file.py''\<rparr>, \<lparr>status = ''R100'', filename = ''old.py''\<rparr>]"
proof -
  have h1: "py_split NL (py_strip sample_status) =
     [] @ (''M'' @ TAB # ''file.py'')
        # [''README'', ''R100'' @ [TAB] @ ''old.py'' @ [TAB] @ ''new.py'']"
    by (simp add: sample_status_lines)
  have h2: "py_split NL (py_strip sample_status) =
     [''M'' @ TAB # ''file.py''] @ ''README''
        # [''R100'' @ [TAB] @ ''old.py'' @ [TAB] @ ''new.py'']"
    by (simp add: sample_status_lines)
  have t1: "TAB \<notin> set ''M'' \<and> TAB \<notin> set ''file.py''
              \<and> ''M'' @ TAB # ''file.py'' = ''M'' @ TAB # ''file.py''"
    by simp
  have t2: "TAB \<notin> set ''README''" by simp
  from name_status_parsing [OF h1, of "''M''" "''file.py''", THEN conjunct1, THEN mp, OF t1]
  have two: "parse_changed_files sample_status =
       [\<lparr>status = ''M'', filename = ''file.py''\<rparr>, \<lparr>status = ''R100'', filename = ''old.py''\<rparr>]"
    by (simp add: parse_line_def)
  from name_status_parsing [OF h2, THEN conjunct2, THEN mp, OF t2]
  have one: "parse_changed_files sample_status =
       [\<lparr>status = ''M'', filename = ''file.py''\<rparr>, \<lparr>status = ''R100'', filename = ''old.py''\<rparr>]"
    by (simp add: parse_line_def)
  from t1 have t: "TAB \<notin> set ''M''" "TAB \<notin> set ''file.py''" by simp_all
  from h1 h2 t t2 two show ?thesis by (intro conjI)
qed

text \<open>
  Claim C9. A line of three or more tab-separated fields, such as the rename line
  \<open>R100 old new\<close>, contributes exactly one entry: its status is the first field, its
  filename the second, and whatever follows the second tab is discarded.
\<close>

theorem extra_fields_dropped:
  assumes "py_split NL (py_strip out) = before @ line # after"
    and "line = a @ TAB # b @ TAB # tail"
    and "TAB \<notin> set a" and "TAB \<notin> set b"
  shows "parse_changed_files out =
           foldl parse_line [] before @ [\<lparr>status = a, filename = b\<rparr>]
             @ foldl parse_line [] after"
proof -
  have "parse_line [] line = [\<lparr>status = a, filename = b\<rparr>]"
    using parse_line_more [OF assms(3,4), of "[]" tail] assms(2) by simp
  with parse_changed_files_split [OF assms(1)] show ?thesis by simp
qed

theorem extra_fields_dropped_witness:
  "py_split NL (py_strip sample_status) =
     [''M'' @ TAB # ''file.py'', ''README''] @ (''R100'' @ TAB # ''old.py'' @ TAB # ''new.py'') # []
   \<and> TAB \<notin> set ''R100'' \<and> TAB \<notin> set ''old.py''
   \<and> parse_changed_files sample_status =
       [\<lparr>status = ''M'', filename = ''file.py''\<rparr>, \<lparr>status = ''R100'', filename = ''old.py''\<rparr>]"
proof -
  have h1: "py_split NL (py_strip sample_status) =
     [''M'' @ TAB # ''file.py'', ''README''] @ (''R100'' @ TAB # ''old.py'' @ TAB # ''new.py'') # []"
    by (simp add: sample_status_lines)
  have t: "TAB \<notin> set ''R100''" "TAB \<notin> set ''old.py''" by simp_all
  have front: "foldl parse_line [] [''M'' @ TAB # ''file.py'', ''README'']
                 = [\<lparr>status = ''M'', filename = ''file.py''\<rparr>]"
    by (simp add: parse_line_def)
  from extra_fields_dropped [OF h1 refl t] t front h1
  show ?thesis by simp
qed

text \<open>
  Claim C2, as the code has it. Every entry of \<open>files_changed\<close> in a report is made of the
  first two tab-separated fields of a non-empty line of the name-status output (taken
  after the whitespace at the two ends of the output is removed): the status is the
  first field and the filename the second, so neither holds a tab or a newline. Nothing
  checks the length of either: the status is as long as git prints it.
\<close>

theorem changed_files_fields:
  assumes "analyze_file_changes env b inc n = Report r"
    and "working_dir env = Inr wd"
    and "run env [''git'', ''diff'', ''--name-status'', b @ ''...HEAD''] wd = Inr fres"
    and "cf \<in> set (files_changed r)"
  shows "(\<exists>line tail. line \<in> set (py_split NL (py_strip (stdout fres))) \<and> line \<noteq> []
            \<and> py_split TAB line = status cf # filename cf # tail)
       \<and> TAB \<notin> set (status cf) \<and> NL \<notin> set (status cf)
       \<and> TAB \<notin> set (filename cf) \<and> NL \<notin> set (filename cf)"
proof -
  from analyze_Report [OF assms(1)] assms(2,3)
  have "files_changed r = parse_changed_files (stdout fres)" by auto
  with assms(4) have "cf \<in> set (foldl parse_line [] (py_split NL (py_strip (stdout fres))))"
    by (simp add: parse_changed_files_def)
  from foldl_parse_line_entry [OF this]
  obtain line tail where line: "line \<in> set (py_split NL (py_strip (stdout fres)))"
    and ne: "line \<noteq> []"
    and fields: "py_split TAB line = status cf # filename cf # tail"
    by blast
  from fields have s: "status cf \<in> set (py_split TAB line)"
    and f: "filename cf \<in> set (py_split TAB line)"
    by simp_all
  from line have noNL: "NL \<notin> set line" by (rule py_split_no_sep)
  from s f have "TAB \<notin> set (status cf)" "TAB \<notin> set (filename cf)"
    by (auto dest: py_split_no_sep)
  moreover from s f noNL have "NL \<notin> set (status cf)" "NL \<notin> set (filename cf)"
    by (auto dest: py_split_subset)
  ultimately show ?thesis using line ne fields by blast
qed

theorem changed_files_fields_witness:
  "analyze_file_changes (sample_repo '''' '''' sample_status) ''main'' True 500
     = Report \<lparr>stats = '''', total_diff_lines = 1,
         files_changed = [\<lparr>status = ''M'', filename = ''file.py''\<rparr>,
                          \<lparr>status = ''R100'', filename = ''old.py''\<rparr>],
         diff = ''''\<rparr>
   \<and> working_dir (sample_repo '''' '''' sample_status) = Inr ''/repo''
   \<and> run (sample_repo '''' '''' sample_status)
         [''git'', ''diff'', ''--name-status'', ''main'' @ ''...HEAD''] ''/repo''
       = Inr \<lparr>returncode = 0, stdout = sample_status, stderr = ''''\<rparr>
   \<and> TAB \<notin> set ''M'' \<and> NL \<notin> set ''M'' \<and> TAB \<notin> set ''file.py'' \<and> NL \<notin> set ''file.py''
   \<and> (\<exists>line tail. line \<in> set (py_split NL (py_strip sample_status)) \<and> line \<noteq> []
          \<and> py_split TAB line = ''M'' # ''file.py'' # tail)"
proof -
  let ?r = "\<lparr>stats = '''', total_diff_lines = 1,
         files_changed = [\<lparr>status = ''M'', filename = ''file.py''\<rparr>,
                          \<lparr>status = ''R100'', filename = ''old.py''\<rparr>],
         diff = ''''\<rparr>"
  have h1: "analyze_file_changes (sample_repo '''' '''' sample_status) ''main'' True 500
              = Report ?r"
    by code_simp
  have h2: "working_dir (sample_repo '''' '''' sample_status) = Inr ''/repo''"
    by (rule sample_wd)
  have h3: "run (sample_repo '''' '''' sample_status)
         [''git'', ''diff'', ''--name-status'', ''main'' @ ''...HEAD''] ''/repo''
       = Inr \<lparr>returncode = 0, stdout = sample_status, stderr = ''''\<rparr>"
    by (rule sample_run_files)
  have h4: "\<lparr>status = ''M'', filename = ''file.py''\<rparr> \<in> set (files_changed ?r)"
    by simp
  from changed_files_fields [OF h1 h2 h3 h4] h1 h2 h3
  show ?thesis by simp
qed

text \<open>
  The status \<open>M\<close> of a modified file has one character, and a line that ends in a tab
  gives an entry with an empty filename.
\<close>

theorem status_length_counterexample:
  "analyze_file_changes (sample_repo '''' '''' (''M'' @ [TAB] @ ''file.py'' @ [NL])) ''main'' True 500
     = Report \<lparr>stats = '''', total_diff_lines = 1,
         files_changed = [\<lparr>status = ''M'', filename = ''file.py''\<rparr>], diff = ''''\<rparr>
   \<and> length (status \<lparr>status = ''M'', filename = ''file.py''\<rparr>) < 2
   \<and> parse_changed_files (''M'' @ [TAB, NL] @ ''A'' @ [TAB] @ ''b.py'' @ [NL])
       = [\<lparr>status = ''M'', filename = ''''\<rparr>, \<lparr>status = ''A'', filename = ''b.py''\<rparr>]"
  by code_simp

section \<open>Change Inspector: the \<open>include_diff\<close> flag\<close>

text \<open>
  Claim C10. In a repository state where the three commands succeed, the calls with
  \<open>include_diff\<close> true and false return the same \<open>stats\<close>, \<open>total_diff_lines\<close> and
  \<open>files_changed\<close>; \<open>total_diff_lines\<close> is the line count of the diff command's output in
  both; only \<open>diff\<close> differs, and is the placeholder when the flag is false.
\<close>

theorem include_diff_frame:
  assumes "working_dir env = Inr wd"
    and "run env [''git'', ''diff'', b @ ''...HEAD''] wd = Inr dres"
    and "run env [''git'', ''diff'', ''--stat'', b @ ''...HEAD''] wd = Inr sres"
    and "run env [''git'', ''diff'', ''--name-status'', b @ ''...HEAD''] wd = Inr fres"
    and "returncode dres = 0" and "returncode sres = 0" and "returncode fres = 0"
  shows "analyze_file_changes env b True n =
           Report \<lparr>stats = stdout sres,
                   total_diff_lines = length (py_split NL (stdout dres)),
                   files_changed = parse_changed_files (stdout fres),
                   diff = truncate_diff n (stdout dres)\<rparr>
       \<and> analyze_file_changes env b False n =
           Report \<lparr>stats = stdout sres,
                   total_diff_lines = length (py_split NL (stdout dres)),
                   files_changed = parse_changed_files (stdout fres),
                   diff = ''Diff not included (set include_diff=true to see it)''\<rparr>"
  using analyze_success [OF assms, of True n] analyze_success [OF assms, of False n]
  by simp

theorem include_diff_frame_witness:
  "working_dir (sample_repo ''a\<newline>b'' ''s'' sample_status) = Inr ''/repo''
   \<and> analyze_file_changes (sample_repo ''a\<newline>b'' ''s'' sample_status) ''main'' True 1 =
       Report \<lparr>stats = ''s'', total_diff_lines = 2,
         files_changed = [\<lparr>status = ''M'', filename = ''file.py''\<rparr>,
                          \<lparr>status = ''R100'', filename = ''old.py''\<rparr>],
         diff = ''a\<newline>\<newline>... Output truncated. Showing 1 of 2 lines ...''\<rparr>
   \<and> analyze_file_changes (sample_repo ''a\<newline>b'' ''s'' sample_status) ''main'' False 1 =
       Report \<lparr>stats = ''s'', total_diff_lines = 2,
         files_changed = [\<lparr>status = ''M'', filename = ''file.py''\<rparr>,
                          \<lparr>status = ''R100'', filename = ''old.py''\<rparr>],
         diff = ''Diff not included (set include_diff=true to see it)''\<rparr>"
proof -
  have rc: "returncode \<lparr>returncode = 0, stdout = x, stderr = ''''\<rparr> = 0" for x :: string
    by simp
  have p: "parse_changed_files sample_status =
       [\<lparr>status = ''M'', filename = ''file.py''\<rparr>, \<lparr>status = ''R100'', filename = ''old.py''\<rparr>]"
    by (simp add: parse_changed_files_def sample_status_lines parse_line_def)
  have t: "truncate_diff 1 ''a\<newline>b'' = ''a\<newline>\<newline>... Output truncated. Showing 1 of 2 lines ...''"
    by code_simp
  have l: "length (py_split NL ''a\<newline>b'') = 2" by simp
  from include_diff_frame [OF sample_wd sample_run_diff sample_run_stat sample_run_files rc rc rc,
      of "''a\<newline>b''" "''s''" sample_status 1]
    sample_wd [of "''a\<newline>b''" "''s''" sample_status] p t l
  show ?thesis by simp
qed

section \<open>Template Registry: files that cannot be read\<close>

lemma read_templates_append:
  "read_templates dir (xs @ ys) acc = read_templates dir ys (read_templates dir xs acc)"
  by (induction xs arbitrary: acc) (auto split: sum.splits)

lemma read_templates_keys:
  "fst ` set (read_templates dir files acc) = fst ` set acc \<union> entry_key ` set files"
proof (induction files arbitrary: acc)
  case Nil
  then show ?case by simp
next
  case (Cons g files)
  obtain fname outcome where g: "g = (fname, outcome)" by (cases g)
  show ?case
  proof (cases outcome)
    case (Inl e)
    with g Cons.IH show ?thesis by (auto simp: AList.dom_update)
  next
    case (Inr content)
    with g Cons.IH show ?thesis by (auto simp: AList.dom_update)
  qed
qed

lemma read_templates_other:
  "\<forall>g\<in>set files. entry_key g \<noteq> k \<Longrightarrow>
     map_of (read_templates dir files acc) k = map_of acc k"
proof (induction files arbitrary: acc)
  case Nil
  then show ?case by simp
next
  case (Cons g files)
  obtain fname outcome where g: "g = (fname, outcome)" by (cases g)
  show ?case
  proof (cases outcome)
    case (Inl e)
    with g Cons show ?thesis by (auto simp add: AList.update_conv')
  next
    case (Inr content)
    with g Cons show ?thesis by (auto simp add: AList.update_conv')
  qed
qed

lemma read_templates_failed:
  assumes "\<forall>g\<in>set post. entry_key g \<noteq> fname"
  shows "map_of (read_templates dir (pre @ (fname, Inl e) # post) acc) fname =
           Some (Unreadable fname (''Failed to read template: '' @ e))"
  using assms by (simp add: read_templates_append read_templates_other AList.update_conv')

lemma read_templates_read:
  assumes "\<forall>g\<in>set post. entry_key g \<noteq> stem fname"
  shows "map_of (read_templates dir (pre @ (fname, Inr content) # post) acc) (stem fname) =
           Some (Template (stem fname) (dir @ ''/'' @ fname) content)"
  using assms by (simp add: read_templates_append read_templates_other AList.update_conv')

lemma get_pr_templates_Some:
  "listing fs = Some entries \<Longrightarrow>
     get_pr_templates fs =
       Templates (read_templates (templates_dir fs) (glob_md entries) [])
         (length (read_templates (templates_dir fs) (glob_md entries) [])) (templates_dir fs)"
  by (simp add: get_pr_templates_def Let_def)

lemma get_pr_templates_count:
  "get_pr_templates fs = Templates templates count dir \<Longrightarrow> count = length templates"
  by (auto simp: get_pr_templates_def Let_def split: option.splits)

text \<open>
  Claim C7, as the code has it. When the directory exists the call never fails as a
  whole: it returns a mapping with one key for every globbed file. A file that cannot
  be read is in the mapping under its full name, with the error message in place of
  the content, provided no file found after it is stored under that same key (a later
  readable file whose stem is that name replaces the entry: the last one read wins).
  The files after the failing one are still read: each readable one is in the mapping
  under its stem, with its content, unless a still later file takes the same key.
\<close>

theorem unreadable_template_kept:
  assumes "listing fs = Some entries"
    and "glob_md entries = pre @ (fname, Inl e) # post"
    and "\<forall>g\<in>set post. entry_key g \<noteq> fname"
  shows "\<exists>templates.
           get_pr_templates fs = Templates templates (length templates) (templates_dir fs)
         \<and> map_of templates fname = Some (Unreadable fname (''Failed to read template: '' @ e))
         \<and> fst ` set templates = entry_key ` set (glob_md entries)
         \<and> (\<forall>mid g content rest.
               post = mid @ (g, Inr content) # rest \<and> (\<forall>h\<in>set rest. entry_key h \<noteq> stem g) \<longrightarrow>
               map_of templates (stem g)
                 = Some (Template (stem g) (templates_dir fs @ ''/'' @ g) content))"
proof -
  let ?ts = "read_templates (templates_dir fs) (glob_md entries) []"
  have 1: "get_pr_templates fs = Templates ?ts (length ?ts) (templates_dir fs)"
    by (rule get_pr_templates_Some [OF assms(1)])
  have 2: "map_of ?ts fname = Some (Unreadable fname (''Failed to read template: '' @ e))"
    unfolding assms(2) by (rule read_templates_failed [OF assms(3)])
  have 3: "fst ` set ?ts = entry_key ` set (glob_md entries)"
    by (simp add: read_templates_keys)
  have 4: "map_of ?ts (stem g) = Some (Template (stem g) (templates_dir fs @ ''/'' @ g) content)"
    if "post = mid @ (g, Inr content) # rest" and "\<forall>h\<in>set rest. entry_key h \<noteq> stem g"
    for mid g content rest
  proof -
    have "glob_md entries = (pre @ (fname, Inl e) # mid) @ (g, Inr content) # rest"
      using assms(2) that(1) by simp
    then show ?thesis
      using read_templates_read [OF that(2), of "templates_dir fs" "pre @ (fname, Inl e) # mid" content "[]"]
      by simp
  qed
  from 1 2 3 4 show ?thesis by blast
qed

theorem unreadable_template_kept_witness:
  "listing (sample_templates [(''bug.md'', Inl ''[Errno 13] Permission denied''),
       (''notes.txt'', Inr ''n''), (''feature.md'', Inr ''F'')])
     = Some [(''bug.md'', Inl ''[Errno 13] Permission denied''),
         (''notes.txt'', Inr ''n''), (''feature.md'', Inr ''F'')]
   \<and> glob_md [(''bug.md'', Inl ''[Errno 13] Permission denied''),
         (''notes.txt'', Inr ''n''), (''feature.md'', Inr ''F'')]
     = [] @ (''bug.md'', Inl ''[Errno 13] Permission denied'') # [(''feature.md'', Inr ''F'')]
   \<and> entry_key (''feature.md'', Inr ''F'') \<noteq> ''bug.md''
   \<and> get_pr_templates (sample_templates [(''bug.md'', Inl ''[Errno 13] Permission denied''),
             (''notes.txt'', Inr ''n''), (''feature.md'', Inr ''F'')])
       = Templates
           [(''bug.md'',
               Unreadable ''bug.md'' ''Failed to read template: [Errno 13] Permission denied''),
            (''feature'', Template ''feature'' ''/templates/feature.md'' ''F'')]
           2 ''/templates''
   \<and> map_of
         [(''bug.md'',
             Unreadable ''bug.md'' ''Failed to read template: [Errno 13] Permission denied''),
          (''feature'', Template ''feature'' ''/templates/feature.md'' ''F'')] ''bug.md''
       = Some (Unreadable ''bug.md'' ''Failed to read template: [Errno 13] Permission denied'')"
proof -
  let ?entries = "[(''bug.md'', Inl ''[Errno 13] Permission denied''),
       (''notes.txt'', Inr ''n''), (''feature.md'', Inr ''F'')]"
  let ?fs = "sample_templates ?entries"
  let ?ts = "[(''bug.md'',
               Unreadable ''bug.md'' ''Failed to read template: [Errno 13] Permission denied''),
            (''feature'', Template ''feature'' ''/templates/feature.md'' ''F'')]"
  have h1: "listing ?fs = Some ?entries"
    by (simp add: sample_templates_def)
  have h2: "glob_md ?entries
     = [] @ (''bug.md'', Inl ''[Errno 13] Permission denied'') # [(''feature.md'', Inr ''F'')]"
    by (simp add: glob_md_def)
  have st: "stem ''feature.md'' = ''feature''"
    by (simp add: stem_def)
  have k: "entry_key (''feature.md'', Inr ''F'') \<noteq> ''bug.md''"
    by (simp add: st)
  then have h3: "\<forall>g\<in>set [(''feature.md'', Inr ''F'')]. entry_key g \<noteq> ''bug.md''"
    by simp
  have v: "get_pr_templates ?fs = Templates ?ts 2 ''/templates''"
    by code_simp
  from unreadable_template_kept [OF h1 h2 h3]
  obtain templates where all:
    "get_pr_templates ?fs = Templates templates (length templates) (templates_dir ?fs)
     \<and> map_of templates ''bug.md''
          = Some (Unreadable ''bug.md'' (''Failed to read template: '' @ ''[Errno 13] Permission denied''))
     \<and> fst ` set templates = entry_key ` set (glob_md ?entries)
     \<and> (\<forall>mid g content rest.
               [(''feature.md'', Inr ''F'')] = mid @ (g, Inr content) # rest
                 \<and> (\<forall>h\<in>set rest. entry_key h \<noteq> stem g) \<longrightarrow>
               map_of templates (stem g)
                 = Some (Template (stem g) (templates_dir ?fs @ ''/'' @ g) content))" ..
  from all have a: "get_pr_templates ?fs = Templates templates (length templates) (templates_dir ?fs)"
    by (rule conjunct1)
  from all have b: "map_of templates ''bug.md''
          = Some (Unreadable ''bug.md'' (''Failed to read template: '' @ ''[Errno 13] Permission denied''))"
    by (rule conjunct1 [OF conjunct2])
  from a v have "templates = ?ts" by simp
  with b have "map_of ?ts ''bug.md''
       = Some (Unreadable ''bug.md'' ''Failed to read template: [Errno 13] Permission denied'')"
    by simp
  with h1 h2 k v show ?thesis by (intro conjI)
qed

text \<open>
  The file \<open>a.md\<close> cannot be read and \<open>a.md.md\<close>, found after it, can: both are stored
  under the key \<open>a.md\<close>, and the mapping returned holds only the second, with no error
  entry for the first.
\<close>

theorem unreadable_template_counterexample:
  "get_pr_templates (sample_templates
       [(''a.md'', Inl ''[Errno 13] Permission denied''), (''a.md.md'', Inr ''text'')])
     = Templates [(''a.md'', Template ''a.md'' ''/templates/a.md.md'' ''text'')] 1 ''/templates''
   \<and> map_of [(''a.md'', Template ''a.md'' ''/templates/a.md.md'' ''text'')] ''a.md''
       \<noteq> Some (Unreadable ''a.md'' ''Failed to read template: [Errno 13] Permission denied'')"
  by code_simp

section \<open>Template Recommender: the keyword stage\<close>

lemma max_from_keep: "\<forall>x\<in>set xs. key x \<le> key b \<Longrightarrow> max_from key b xs = b"
  by (induction xs) auto

lemma max_from_first:
  "key b < key m \<Longrightarrow> \<forall>x\<in>set A. key x < key m \<Longrightarrow> \<forall>x\<in>set B. key x \<le> key m \<Longrightarrow>
     max_from key b (A @ m # B) = m"
proof (induction A arbitrary: b)
  case Nil
  then show ?case by (simp add: max_from_keep)
next
  case (Cons a A)
  then show ?case by simp
qed

lemma py_max_first:
  assumes "\<forall>x\<in>set A. key x < key m" and "\<forall>x\<in>set B. key x \<le> key m"
  shows "py_max key (A @ m # B) = Some m"
proof (cases A)
  case Nil
  with assms show ?thesis by (simp add: py_max_def max_from_keep)
next
  case (Cons a A')
  with assms have "key a < key m" and "\<forall>x\<in>set A'. key x < key m" by simp_all
  from max_from_first [OF this assms(2)] Cons show ?thesis by (simp add: py_max_def)
qed

lemma first_maximum_exists:
  "xs \<noteq> [] \<Longrightarrow>
     \<exists>A m B. xs = A @ m # B \<and> (\<forall>x\<in>set A. key x < key m) \<and> (\<forall>x\<in>set B. key x \<le> (key m :: nat))"
proof (induction xs)
  case Nil
  then show ?case by simp
next
  case (Cons x xs)
  show ?case
  proof (cases "xs = []")
    case True
    then have "x # xs = [] @ x # []" by simp
    then show ?thesis by fastforce
  next
    case False
    from Cons.IH [OF False] obtain A m B where
      xs: "xs = A @ m # B" and lo: "\<forall>a\<in>set A. key a < key m" and hi: "\<forall>b\<in>set B. key b \<le> key m"
      by blast
    show ?thesis
    proof (cases "key x < key m")
      case True
      have "x # xs = (x # A) @ m # B" using xs by simp
      moreover have "\<forall>a\<in>set (x # A). key a < key m" using True lo by simp
      ultimately show ?thesis using hi by blast
    next
      case False
      have "x # xs = [] @ x # xs" by simp
      moreover have "\<forall>b\<in>set xs. key b \<le> key x"
        using False lo hi xs by (auto simp: le_less_trans less_imp_le dest: order_trans)
      ultimately show ?thesis by (metis empty_iff list.set(1))
    qed
  qed
qed

lemma scores_order:
  "map fst (scores s) =
     [''bug'', ''feature'', ''docs'', ''refactor'', ''test'', ''security'', ''performance'']"
  by (simp add: scores_def keywords_dict_def)

lemma scores_not_Nil: "scores s \<noteq> []"
  by (simp add: scores_def keywords_dict_def)

lemma sample_scores:
  "scores ''Fix and add'' =
     [(''bug'', 1), (''feature'', 1), (''docs'', 0), (''refactor'', 0), (''test'', 0),
      (''security'', 0), (''performance'', 0)]"
  by code_simp

text \<open>
  Claim C3. The scores are listed in the order bug, feature, docs, refactor, test,
  security, performance. The category the keyword stage selects always has a score that
  no category exceeds and that every category listed before it stays strictly below:
  among the categories with the highest count it is the one declared first. So
  when two categories \<open>c1\<close> (earlier) and \<open>c2\<close> (later) share the highest count, \<open>c1\<close> is
  selected; a summary with one keyword of each and none of any other category is the
  case \<open>n = 1\<close>. The selected category is the one suggested when its count is positive
  and its template exists.
\<close>

theorem keyword_tie_break:
  "map fst (scores s) =
     [''bug'', ''feature'', ''docs'', ''refactor'', ''test'', ''security'', ''performance'']
   \<and> (\<exists>earlier c n later.
         scores s = earlier @ (c, n) # later
       \<and> (\<forall>x\<in>set earlier. snd x < n) \<and> (\<forall>x\<in>set later. snd x \<le> n)
       \<and> best_match s = Some (c, n))
   \<and> (scores s = A @ (c1, n) # B @ (c2, n) # C
        \<and> (\<forall>x\<in>set A. snd x < n) \<and> (\<forall>x\<in>set (B @ C). snd x \<le> n)
      \<longrightarrow> best_match s = Some (c1, n))
   \<and> (best_match s = Some (c, k) \<and> 0 < k \<and> map_of templates c = Some t
      \<longrightarrow> keyword_match templates s =
            Some (Suggestion c t (if 2 < k then Medium else Low)
              (''Based on '' @ py_str (int k) @ '' keyword matches in the changes summary'')))"
proof (intro conjI impI)
  show "map fst (scores s) =
     [''bug'', ''feature'', ''docs'', ''refactor'', ''test'', ''security'', ''performance'']"
    by (rule scores_order)
next
  from first_maximum_exists [OF scores_not_Nil, of s snd]
  obtain earlier m later where
    d: "scores s = earlier @ m # later"
    and lo: "\<forall>x\<in>set earlier. snd x < snd m" and hi: "\<forall>x\<in>set later. snd x \<le> snd m"
    by blast
  from py_max_first [OF lo hi] d have "best_match s = Some m"
    by (simp add: best_match_def)
  with d lo hi have "scores s = earlier @ (fst m, snd m) # later
       \<and> (\<forall>x\<in>set earlier. snd x < snd m) \<and> (\<forall>x\<in>set later. snd x \<le> snd m)
       \<and> best_match s = Some (fst m, snd m)"
    by simp
  then show "\<exists>earlier c n later.
         scores s = earlier @ (c, n) # later
       \<and> (\<forall>x\<in>set earlier. snd x < n) \<and> (\<forall>x\<in>set later. snd x \<le> n)
       \<and> best_match s = Some (c, n)"
    by blast
next
  assume a: "scores s = A @ (c1, n) # B @ (c2, n) # C
        \<and> (\<forall>x\<in>set A. snd x < n) \<and> (\<forall>x\<in>set (B @ C). snd x \<le> n)"
  then have lo: "\<forall>x\<in>set A. snd x < snd (c1, n)"
    and hi: "\<forall>x\<in>set (B @ (c2, n) # C). snd x \<le> snd (c1, n)"
    by auto
  from py_max_first [OF lo hi] a show "best_match s = Some (c1, n)"
    by (simp add: best_match_def)
next
  assume "best_match s = Some (c, k) \<and> 0 < k \<and> map_of templates c = Some t"
  then show "keyword_match templates s =
            Some (Suggestion c t (if 2 < k then Medium else Low)
              (''Based on '' @ py_str (int k) @ '' keyword matches in the changes summary''))"
    by (simp add: keyword_match_def)
qed

theorem keyword_tie_break_witness:
  "scores ''Fix and add'' =
     [] @ (''bug'', 1) # [] @ (''feature'', 1)
        # [(''docs'', 0), (''refactor'', 0), (''test'', 0), (''security'', 0),
           (''performance'', 0)]
   \<and> best_match ''Fix and add'' = Some (''bug'', 1)
   \<and> keyword_match [(''bug'', Template ''bug'' ''/templates/bug.md'' ''B'')] ''Fix and add''
       = Some (Suggestion ''bug'' (Template ''bug'' ''/templates/bug.md'' ''B'') Low
           ''Based on 1 keyword matches in the changes summary'')"
proof -
  let ?C = "[(''docs'', 0::nat), (''refactor'', 0), (''test'', 0), (''security'', 0),
           (''performance'', 0)]"
  let ?t = "Template ''bug'' ''/templates/bug.md'' ''B''"
  have h1: "scores ''Fix and add'' = [] @ (''bug'', 1) # [] @ (''feature'', 1) # ?C"
    by (simp add: sample_scores)
  have h2: "\<forall>x\<in>set ([] :: (string \<times> nat) list). snd x < 1" by simp
  have h3: "\<forall>x\<in>set ([] @ ?C). snd x \<le> 1" by simp
  have p: "py_str 1 = ''1''" by code_simp
  have m: "map_of [(''bug'', ?t)] ''bug'' = Some ?t" by simp
  note T = keyword_tie_break [where s = "''Fix and add''" and A = "[]" and ?c1.0 = "''bug''"
      and n = 1 and B = "[]" and ?c2.0 = "''feature''" and C = ?C
      and c = "''bug''" and k = 1 and templates = "[(''bug'', ?t)]" and t = ?t]
  have ante: "scores ''Fix and add'' = [] @ (''bug'', 1) # [] @ (''feature'', 1) # ?C
        \<and> (\<forall>x\<in>set ([] :: (string \<times> nat) list). snd x < 1) \<and> (\<forall>x\<in>set ([] @ ?C). snd x \<le> 1)"
    using h1 h2 h3 by (intro conjI)
  from T [THEN conjunct2, THEN conjunct2, THEN conjunct1, THEN mp, OF ante]
  have b: "best_match ''Fix and add'' = Some (''bug'', 1)" .
  have pos: "(0::nat) < 1" by simp
  from b pos m have ante2: "best_match ''Fix and add'' = Some (''bug'', 1) \<and> (0::nat) < 1
      \<and> map_of [(''bug'', ?t)] ''bug'' = Some ?t"
    by (intro conjI)
  from T [THEN conjunct2, THEN conjunct2, THEN conjunct2, THEN mp, OF ante2]
  have "keyword_match [(''bug'', ?t)] ''Fix and add''
       = Some (Suggestion ''bug'' ?t (if 2 < (1::nat) then Medium else Low)
           (''Based on '' @ py_str (int 1) @ '' keyword matches in the changes summary''))" .
  then have k: "keyword_match [(''bug'', ?t)] ''Fix and add''
       = Some (Suggestion ''bug'' ?t Low ''Based on 1 keyword matches in the changes summary'')"
    by (simp add: p)
  from h1 b k show ?thesis by (intro conjI)
qed

section \<open>Template Recommender: the order of the stages\<close>

lemma templates_count_pos:
  assumes "get_pr_templates fs = Templates templates count dir" and "templates \<noteq> []"
  shows "count \<noteq> 0"
  using get_pr_templates_count [OF assms(1)] assms(2) by simp

text \<open>
  Claim C4. Let the templates be fetched and not empty and let the direct mapping find
  nothing, so that the keyword stage runs. If the category with the best score has a
  positive score but is no key of the registry, the keyword stage gives no result and
  no other category is looked at: the call returns the template named \<open>feature\<close> with
  confidence low when there is one, and otherwise the first entry of the registry with
  confidence low.
\<close>

theorem keyword_stage_single_shot:
  assumes "get_pr_templates fs = Templates templates count dir"
    and "templates \<noteq> []"
    and "direct_match templates change_type = None"
    and "best_match s = Some (c, n)" and "0 < n"
    and "map_of templates c = None"
  shows "keyword_match templates s = None
       \<and> (\<forall>t. map_of templates ''feature'' = Some t \<longrightarrow>
             suggest_template fs s change_type =
               Suggestion ''feature'' t Low
                 ''No strong match found, defaulting to feature template'')
       \<and> (map_of templates ''feature'' = None \<longrightarrow>
             suggest_template fs s change_type =
               Suggestion (fst (hd templates)) (snd (hd templates)) Low
                 ''No match found, using first available template'')"
proof -
  have km: "keyword_match templates s = None"
    using assms(4,6) by (simp add: keyword_match_def)
  have st: "suggest_template fs s change_type = default_template templates"
    using assms(1,3) km templates_count_pos [OF assms(1,2)]
    by (simp add: suggest_template_def)
  show ?thesis
  proof (intro conjI allI impI)
    show "keyword_match templates s = None" by (rule km)
  next
    fix t assume "map_of templates ''feature'' = Some t"
    then show "suggest_template fs s change_type =
               Suggestion ''feature'' t Low
                 ''No strong match found, defaulting to feature template''"
      by (simp add: st default_template_def)
  next
    assume "map_of templates ''feature'' = None"
    with assms(2) show "suggest_template fs s change_type =
               Suggestion (fst (hd templates)) (snd (hd templates)) Low
                 ''No match found, using first available template''"
      by (cases templates) (auto simp: st default_template_def)
  qed
qed

theorem keyword_stage_single_shot_witness:
  "get_pr_templates docs_and_feature =
     Templates [(''docs'', Template ''docs'' ''/templates/docs.md'' ''D''),
                (''feature'', Template ''feature'' ''/templates/feature.md'' ''F'')]
       2 ''/templates''
   \<and> get_pr_templates test_and_docs =
     Templates [(''test'', Template ''test'' ''/templates/test.md'' ''T''),
                (''docs'', Template ''docs'' ''/templates/docs.md'' ''D'')]
       2 ''/templates''
   \<and> best_match ''fix the docs'' = Some (''bug'', 1)
   \<and> suggest_template docs_and_feature ''fix the docs'' ''unknown'' =
       Suggestion ''feature'' (Template ''feature'' ''/templates/feature.md'' ''F'') Low
         ''No strong match found, defaulting to feature template''
   \<and> suggest_template test_and_docs ''fix the docs'' ''unknown'' =
       Suggestion ''test'' (Template ''test'' ''/templates/test.md'' ''T'') Low
         ''No match found, using first available template''"
proof -
  let ?ts1 = "[(''docs'', Template ''docs'' ''/templates/docs.md'' ''D''),
                (''feature'', Template ''feature'' ''/templates/feature.md'' ''F'')]"
  let ?ts2 = "[(''test'', Template ''test'' ''/templates/test.md'' ''T''),
                (''docs'', Template ''docs'' ''/templates/docs.md'' ''D'')]"
  have g1: "get_pr_templates docs_and_feature = Templates ?ts1 2 ''/templates''"
    by code_simp
  have g2: "get_pr_templates test_and_docs = Templates ?ts2 2 ''/templates''"
    by code_simp
  have ne1: "?ts1 \<noteq> []" and ne2: "?ts2 \<noteq> []" by simp_all
  have d1: "direct_match ?ts1 ''unknown'' = None" by code_simp
  have d2: "direct_match ?ts2 ''unknown'' = None" by code_simp
  have b: "best_match ''fix the docs'' = Some (''bug'', 1)" by code_simp
  have pos: "(0::nat) < 1" by simp
  have m1: "map_of ?ts1 ''bug'' = None" and m2: "map_of ?ts2 ''bug'' = None" by simp_all
  have f1: "map_of ?ts1 ''feature'' = Some (Template ''feature'' ''/templates/feature.md'' ''F'')"
    by simp
  have f2: "map_of ?ts2 ''feature'' = None" by simp
  from keyword_stage_single_shot [OF g1 ne1 d1 b pos m1, THEN conjunct2, THEN conjunct1,
      THEN spec, THEN mp, OF f1]
  have r1: "suggest_template docs_and_feature ''fix the docs'' ''unknown'' =
       Suggestion ''feature'' (Template ''feature'' ''/templates/feature.md'' ''F'') Low
         ''No strong match found, defaulting to feature template''" .
  from keyword_stage_single_shot [OF g2 ne2 d2 b pos m2, THEN conjunct2, THEN conjunct2,
      THEN mp, OF f2]
  have r2: "suggest_template test_and_docs ''fix the docs'' ''unknown'' =
       Suggestion ''test'' (Template ''test'' ''/templates/test.md'' ''T'') Low
         ''No match found, using first available template''"
    by simp
  from g1 g2 b r1 r2 show ?thesis by (intro conjI)
qed

lemma fix_is_bug: "map_of common_types (py_strip (py_lower ''fix'')) = Some ''bug''"
  by code_simp

text \<open>
  Claim C5. With change type \<open>fix\<close> and a template named \<open>bug\<close> in the registry the call
  returns the suggestion \<open>bug\<close> with confidence high, whatever the summary is: the
  result does not mention the summary.
\<close>

theorem direct_mapping_wins:
  assumes "get_pr_templates fs = Templates templates count dir"
    and "map_of templates ''bug'' = Some t"
  shows "suggest_template fs s ''fix'' =
           Suggestion ''bug'' t High
             (''Direct match for change type '' @ [CHR 0x27] @ ''fix'' @ [CHR 0x27])"
proof -
  from assms(2) have "templates \<noteq> []" by auto
  from templates_count_pos [OF assms(1) this] have c: "count \<noteq> 0" .
  have "direct_match templates ''fix'' =
          Some (Suggestion ''bug'' t High
             (''Direct match for change type '' @ [CHR 0x27] @ ''fix'' @ [CHR 0x27]))"
    unfolding direct_match_def fix_is_bug using assms(2) by simp
  with assms(1) c show ?thesis by (simp add: suggest_template_def)
qed

theorem direct_mapping_wins_witness:
  "get_pr_templates bug_and_feature =
     Templates [(''bug'', Template ''bug'' ''/templates/bug.md'' ''B''),
                (''feature'', Template ''feature'' ''/templates/feature.md'' ''F'')]
       2 ''/templates''
   \<and> suggest_template bug_and_feature ''add a new feature'' ''fix'' =
       Suggestion ''bug'' (Template ''bug'' ''/templates/bug.md'' ''B'') High
         (''Direct match for change type '' @ [CHR 0x27] @ ''fix'' @ [CHR 0x27])"
proof -
  let ?ts = "[(''bug'', Template ''bug'' ''/templates/bug.md'' ''B''),
                (''feature'', Template ''feature'' ''/templates/feature.md'' ''F'')]"
  have g: "get_pr_templates bug_and_feature = Templates ?ts 2 ''/templates''"
    by code_simp
  have m: "map_of ?ts ''bug'' = Some (Template ''bug'' ''/templates/bug.md'' ''B'')" by simp
  from direct_mapping_wins [OF g m, of "''add a new feature''"] g show ?thesis
    by (intro conjI)
qed

text \<open>
  Claim C8. When the templates directory exists and holds no template document, the
  call returns the error \<open>No templates available\<close> with no suggestion, for every summary
  and change type.
\<close>

theorem no_templates_available:
  assumes "listing fs = Some entries" and "glob_md entries = []"
  shows "suggest_template fs s c = NoSuggestion ''No templates available''"
  using assms by (simp add: suggest_template_def get_pr_templates_def)

theorem no_templates_available_witness:
  "listing (sample_templates [(''notes.txt'', Inr ''n'')]) = Some [(''notes.txt'', Inr ''n'')]
   \<and> glob_md [(''notes.txt'', Inr ''n'')] = []
   \<and> suggest_template (sample_templates [(''notes.txt'', Inr ''n'')]) ''fix a crash'' ''fix''
       = NoSuggestion ''No templates available''"
proof -
  have h1: "listing (sample_templates [(''notes.txt'', Inr ''n'')])
              = Some [(''notes.txt'', Inr ''n'')]"
    by (simp add: sample_templates_def)
  have h2: "glob_md [(''notes.txt'', Inr ''n'')] = []"
    by (simp add: glob_md_def)
  from no_templates_available [OF h1 h2, of "''fix a crash''" "''fix''"] h1 h2
  show ?thesis by (intro conjI)
qed

end
